theory Spec2Isabelle
  imports Complex_Main
begin

section \<open>MinimalImage: a shallow embedding of src/dso/util/MinimalImage.h\<close>

text \<open>
  The class template \<^verbatim>\<open>MinimalImage<T>\<close> is embedded with the element type \<open>T\<close> as a
  type variable. The pixel storage lives in an explicit heap of arrays, so that two
  images can share one array; every operation whose behaviour C++ leaves undefined
  (signed overflow, an access outside a live array, a null pointer, releasing what is
  not an array) returns an \<open>error\<close> instead of a value.
\<close>

subsection \<open>The type int\<close>

text \<open>
  \<^verbatim>\<open>int\<close> is the 32-bit signed integer of the platforms the program is built for.
  Signed overflow is undefined in C++: the arithmetic is done on \<open>int\<close> and a result
  outside the range is the error \<open>SignedOverflow\<close>.
\<close>

datatype error =
    SignedOverflow
  | FloatToIntRange
  | NullPointer
  | InvalidAccess
  | BadArrayLength
  | BadDelete

definition INT_MAX :: int where
  "INT_MAX = 2147483647"

definition INT_MIN :: int where
  "INT_MIN = - 2147483648"

definition int_ok :: "int \<Rightarrow> bool" where
  "int_ok i \<longleftrightarrow> INT_MIN \<le> i \<and> i \<le> INT_MAX"

definition chk :: "int \<Rightarrow> error + int" where
  "chk i = (if int_ok i then Inr i else Inl SignedOverflow)"

definition ebind :: "error + 'x \<Rightarrow> ('x \<Rightarrow> error + 'y) \<Rightarrow> error + 'y" where
  "ebind m f = (case m of Inl e \<Rightarrow> Inl e | Inr x \<Rightarrow> f x)"

subsection \<open>The type float\<close>

text \<open>
  A finite \<^verbatim>\<open>float\<close> is the real number it denotes. \<^verbatim>\<open>float\<close> is the IEEE 754
  binary32 format: 24 significant bits, exponents from \<open>- 126\<close> to \<open>127\<close>, and
  arithmetic that rounds the exact result to the nearest float, a tie to the one
  whose last bit is even. \<open>float_exponent x\<close> is the largest \<open>e\<close> in that range with
  \<open>2 ^ e \<le> x\<close> (\<open>- 126\<close> for the subnormal numbers below), found by counting down
  from 127; the floats of that binade are the multiples of \<open>2 ^ (e - 23)\<close>. A result
  beyond the largest float is infinite in C++: \<open>round_to_float\<close> keeps a real of that
  size, which no \<^verbatim>\<open>int\<close> holds, so the cast that follows is undefined either way.

  \<^verbatim>\<open>static_cast<int>\<close> discards the fractional part (it truncates towards zero) and
  is undefined when the truncated value is not an \<^verbatim>\<open>int\<close>.
\<close>

definition round_half_even :: "real \<Rightarrow> int" where
  "round_half_even m =
     (let f = \<lfloor>m\<rfloor>; d = m - of_int f in
      if d < 1 / 2 then f
      else if 1 / 2 < d then f + 1
      else if even f then f else f + 1)"

fun exponent_from :: "nat \<Rightarrow> int \<Rightarrow> real \<Rightarrow> int" where
  "exponent_from 0 e x = e"
| "exponent_from (Suc n) e x = (if 2 powi e \<le> x then e else exponent_from n (e - 1) x)"

definition float_exponent :: "real \<Rightarrow> int" where
  "float_exponent x = exponent_from 253 127 x"

definition round_to_float :: "real \<Rightarrow> real" where
  "round_to_float x =
     (let ulp = 2 powi (float_exponent \<bar>x\<bar> - 23) in
      sgn x * (of_int (round_half_even (\<bar>x\<bar> / ulp)) * ulp))"

definition float_add :: "real \<Rightarrow> real \<Rightarrow> real" where
  "float_add a b = round_to_float (a + b)"

definition trunc_toward_zero :: "real \<Rightarrow> int" where
  "trunc_toward_zero f = (if 0 \<le> f then \<lfloor>f\<rfloor> else \<lceil>f\<rceil>)"

definition static_cast_int :: "real \<Rightarrow> error + int" where
  "static_cast_int f = (if int_ok (trunc_toward_zero f) then Inr (trunc_toward_zero f) else Inl FloatToIntRange)"

subsection \<open>Arrays, pointers and the heap\<close>

text \<open>
  An array is a list of cells; a cell is \<open>None\<close> while its value is indeterminate
  (\<^verbatim>\<open>new T[n]\<close> does not initialise). The heap is the list of all arrays ever
  created, indexed by their number; a released array is \<open>None\<close>. A pointer is null
  or an array with an element offset.
\<close>

type_synonym 'a cell = "'a option"

type_synonym 'a heap = "'a cell list option list"

datatype ptr = Null | Ptr nat int

definition block_of :: "ptr \<Rightarrow> nat option" where
  "block_of p = (case p of Null \<Rightarrow> None | Ptr b off \<Rightarrow> Some b)"

definition live :: "'a heap \<Rightarrow> nat \<Rightarrow> 'a cell list option" where
  "live hp b = (if b < length hp then hp ! b else None)"

text \<open>\<^verbatim>\<open>p[i]\<close>: the element \<open>i\<close> places after \<open>p\<close>.\<close>

definition index_ptr :: "ptr \<Rightarrow> int \<Rightarrow> error + ptr" where
  "index_ptr p i = (case p of Null \<Rightarrow> Inl NullPointer | Ptr b off \<Rightarrow> Inr (Ptr b (off + i)))"

text \<open>Reading and writing through a reference.\<close>

definition load :: "'a heap \<Rightarrow> ptr \<Rightarrow> error + 'a cell" where
  "load hp p =
     (case p of
        Null \<Rightarrow> Inl NullPointer
      | Ptr b off \<Rightarrow>
          (case live hp b of
             None \<Rightarrow> Inl InvalidAccess
           | Some cells \<Rightarrow>
               if 0 \<le> off \<and> off < int (length cells) then Inr (cells ! nat off)
               else Inl InvalidAccess))"

definition store :: "'a heap \<Rightarrow> ptr \<Rightarrow> 'a \<Rightarrow> error + 'a heap" where
  "store hp p v =
     (case p of
        Null \<Rightarrow> Inl NullPointer
      | Ptr b off \<Rightarrow>
          (case live hp b of
             None \<Rightarrow> Inl InvalidAccess
           | Some cells \<Rightarrow>
               if 0 \<le> off \<and> off < int (length cells)
               then Inr (hp[b := Some (cells[nat off := Some v])])
               else Inl InvalidAccess))"

text \<open>
  \<^verbatim>\<open>new T[n]\<close>: a fresh array of \<open>n\<close> indeterminate cells; a negative length throws.
  The heap has no size limit, so no allocation fails for lack of memory.
  \<^verbatim>\<open>delete[] p\<close>: \<open>p\<close> must be the start of a live array; deleting a null pointer
  does nothing.
\<close>

definition new_array :: "'a heap \<Rightarrow> int \<Rightarrow> error + ('a heap \<times> ptr)" where
  "new_array hp n =
     (if n < 0 then Inl BadArrayLength
      else Inr (hp @ [Some (replicate (nat n) None)], Ptr (length hp) 0))"

definition delete_array :: "'a heap \<Rightarrow> ptr \<Rightarrow> error + 'a heap" where
  "delete_array hp p =
     (case p of
        Null \<Rightarrow> Inr hp
      | Ptr b off \<Rightarrow>
          (case live hp b of
             None \<Rightarrow> Inl BadDelete
           | Some cells \<Rightarrow> if off = 0 then Inr (hp[b := None]) else Inl BadDelete))"

text \<open>
  The \<open>n\<close> cells starting at a pointer, and overwriting them. The byte counts of
  \<^verbatim>\<open>memcpy\<close> and \<^verbatim>\<open>memset\<close> are \<^verbatim>\<open>sizeof(T) * stride * h\<close>, computed in
  \<^verbatim>\<open>size_t\<close>: a negative \<open>stride * h\<close> wraps to a count no array holds.
\<close>

definition read_cells :: "'a heap \<Rightarrow> ptr \<Rightarrow> int \<Rightarrow> error + 'a cell list" where
  "read_cells hp p n =
     (case p of
        Null \<Rightarrow> Inl NullPointer
      | Ptr b off \<Rightarrow>
          (case live hp b of
             None \<Rightarrow> Inl InvalidAccess
           | Some cells \<Rightarrow>
               if 0 \<le> off \<and> 0 \<le> n \<and> off + n \<le> int (length cells)
               then Inr (take (nat n) (drop (nat off) cells))
               else Inl InvalidAccess))"

definition write_cells :: "'a heap \<Rightarrow> ptr \<Rightarrow> 'a cell list \<Rightarrow> error + 'a heap" where
  "write_cells hp p vs =
     (case p of
        Null \<Rightarrow> Inl NullPointer
      | Ptr b off \<Rightarrow>
          (case live hp b of
             None \<Rightarrow> Inl InvalidAccess
           | Some cells \<Rightarrow>
               if 0 \<le> off \<and> off + int (length vs) \<le> int (length cells)
               then Inr (hp[b := Some (take (nat off) cells @ vs @
                                         drop (nat off + length vs) cells)])
               else Inl InvalidAccess))"

definition overlap :: "ptr \<Rightarrow> ptr \<Rightarrow> int \<Rightarrow> bool" where
  "overlap p q n =
     (case (p, q) of
        (Ptr b off, Ptr c off') \<Rightarrow> b = c \<and> off < off' + n \<and> off' < off + n
      | _ \<Rightarrow> False)"

definition memcpy :: "'a heap \<Rightarrow> ptr \<Rightarrow> ptr \<Rightarrow> int \<Rightarrow> error + 'a heap" where
  "memcpy hp dst src n =
     (if overlap dst src n then Inl InvalidAccess
      else ebind (read_cells hp src n) (\<lambda>vs. write_cells hp dst vs))"


subsection \<open>The class\<close>

record MinimalImage =
  w :: int
  h :: int
  stride :: int
  data :: ptr
  ownData :: bool

text \<open>The two constructors (lines 30 and 41). The default argument is \<open>- 1\<close>.\<close>

definition MinimalImage_own :: "'a heap \<Rightarrow> int \<Rightarrow> int \<Rightarrow> int \<Rightarrow> error + ('a heap \<times> MinimalImage)" where
  "MinimalImage_own hp w' h' stride' =
     (let s = (if stride' > 0 then stride' else w') in
      ebind (chk (s * h')) (\<lambda>n.
      ebind (new_array hp n) (\<lambda>(hp', p).
      Inr (hp', \<lparr>w = w', h = h', stride = s, data = p, ownData = True\<rparr>))))"

definition MinimalImage_own_default :: "'a heap \<Rightarrow> int \<Rightarrow> int \<Rightarrow> error + ('a heap \<times> MinimalImage)" where
  "MinimalImage_own_default hp w' h' = MinimalImage_own hp w' h' (- 1)"

definition MinimalImage_wrap :: "int \<Rightarrow> int \<Rightarrow> ptr \<Rightarrow> int \<Rightarrow> MinimalImage" where
  "MinimalImage_wrap w' h' data' stride' =
     (let s = (if stride' > 0 then stride' else w') in
      \<lparr>w = w', h = h', stride = s, data = data', ownData = False\<rparr>)"

definition MinimalImage_wrap_default :: "int \<Rightarrow> int \<Rightarrow> ptr \<Rightarrow> MinimalImage" where
  "MinimalImage_wrap_default w' h' data' = MinimalImage_wrap w' h' data' (- 1)"

text \<open>The accessors (lines 140 to 165). They return the reference; nothing is read.\<close>

definition at_xy :: "MinimalImage \<Rightarrow> int \<Rightarrow> int \<Rightarrow> error + ptr" where
  "at_xy img x y =
     ebind (chk (y * stride img)) (\<lambda>r.
     ebind (chk (x + r)) (\<lambda>i. index_ptr (data img) i))"


definition at_i :: "MinimalImage \<Rightarrow> int \<Rightarrow> error + ptr" where
  "at_i img i = index_ptr (data img) i"

definition at_i_const :: "MinimalImage \<Rightarrow> int \<Rightarrow> error + ptr" where
  "at_i_const img i = index_ptr (data img) i"


definition assign_xy :: "'a heap \<Rightarrow> MinimalImage \<Rightarrow> int \<Rightarrow> int \<Rightarrow> 'a \<Rightarrow> error + 'a heap" where
  "assign_xy hp img x y val = ebind (at_xy img x y) (\<lambda>r. store hp r val)"

definition read_i :: "'a heap \<Rightarrow> MinimalImage \<Rightarrow> int \<Rightarrow> error + 'a cell" where
  "read_i hp img i = ebind (at_i_const img i) (load hp)"

definition assign_i :: "'a heap \<Rightarrow> MinimalImage \<Rightarrow> int \<Rightarrow> 'a \<Rightarrow> error + 'a heap" where
  "assign_i hp img i val = ebind (at_i img i) (\<lambda>r. store hp r val)"

text \<open>
  The copy constructor (line 49) and the move constructor (line 65). A constructor
  builds a new object: it returns the object, and the move constructor also returns
  what it leaves of its argument.
\<close>

definition MinimalImage_copy :: "'a heap \<Rightarrow> MinimalImage \<Rightarrow> error + ('a heap \<times> MinimalImage)" where
  "MinimalImage_copy hp other =
     (if ownData other then
        ebind (chk (stride other * h other)) (\<lambda>n.
        ebind (new_array hp n) (\<lambda>(hp', p).
        ebind (memcpy hp' p (data other) (stride other * h other)) (\<lambda>hp''.
        Inr (hp'', \<lparr>w = w other, h = h other, stride = stride other,
                    data = p, ownData = True\<rparr>))))
      else
        Inr (hp, \<lparr>w = w other, h = h other, stride = stride other,
                  data = data other, ownData = False\<rparr>))"

definition MinimalImage_move :: "MinimalImage \<Rightarrow> MinimalImage \<times> MinimalImage" where
  "MinimalImage_move other =
     (\<lparr>w = w other, h = h other, stride = stride other,
       data = data other, ownData = ownData other\<rparr>,
      other\<lparr>data := Null, ownData := False\<rparr>)"

text \<open>
  The assignment operators (lines 79 and 106) compare the addresses of two objects, so
  they work on a store of objects: \<open>objs\<close> gives the fields of the object at each
  address, \<open>heap\<close> is the heap of arrays. \<open>release\<close> is the statement
  \<^verbatim>\<open>if(ownData && data) delete[] data;\<close> that both operators (and the destructor,
  line 74) start with.
\<close>

record 'a state =
  objs :: "nat \<Rightarrow> MinimalImage"
  heap :: "'a heap"

definition release :: "'a heap \<Rightarrow> MinimalImage \<Rightarrow> error + 'a heap" where
  "release hp img =
     (if ownData img \<and> data img \<noteq> Null then delete_array hp (data img) else Inr hp)"

definition copy_assign :: "'a state \<Rightarrow> nat \<Rightarrow> nat \<Rightarrow> error + 'a state" where
  "copy_assign st this other =
     (if this \<noteq> other then
        ebind (release (heap st) (objs st this)) (\<lambda>hp.
        let src = objs st other;
            dst = (objs st this)\<lparr>w := w src, h := h src, stride := stride src\<rparr>
        in
          if ownData src then
            ebind (chk (stride dst * h dst)) (\<lambda>n.
            ebind (new_array hp n) (\<lambda>(hp', p).
            ebind (memcpy hp' p (data src) (stride dst * h dst)) (\<lambda>hp''.
            Inr \<lparr>objs = (objs st)(this := dst\<lparr>data := p, ownData := True\<rparr>),
                 heap = hp''\<rparr>)))
          else
            Inr \<lparr>objs = (objs st)(this := dst\<lparr>data := data src, ownData := False\<rparr>),
                 heap = hp\<rparr>)
      else Inr st)"

definition move_assign :: "'a state \<Rightarrow> nat \<Rightarrow> nat \<Rightarrow> error + 'a state" where
  "move_assign st this other =
     (if this \<noteq> other then
        ebind (release (heap st) (objs st this)) (\<lambda>hp.
        let src = objs st other;
            dst = (objs st this)\<lparr>w := w src, h := h src, stride := stride src,
                                data := data src, ownData := ownData src\<rparr>
        in
          Inr \<lparr>objs = (objs st)(this := dst, other := src\<lparr>data := Null, ownData := False\<rparr>),
               heap = hp\<rparr>)
      else Inr st)"





text \<open>
  \<^verbatim>\<open>setPixel1\<close> (line 193) and \<^verbatim>\<open>setPixel4\<close> (line 201). The coordinates are
  read before the first write, so they are passed by value. In \<^verbatim>\<open>setPixel4\<close> the
  sums \<^verbatim>\<open>iu + 1\<close> and \<^verbatim>\<open>iv + 1\<close> are both evaluated in the first statement; the
  later statements evaluate the same sums again.
\<close>

definition setPixel1 :: "'a heap \<Rightarrow> MinimalImage \<Rightarrow> real \<Rightarrow> real \<Rightarrow> 'a \<Rightarrow> error + 'a heap" where
  "setPixel1 hp img u v val =
     ebind (static_cast_int (float_add u (1 / 2))) (\<lambda>x.
     ebind (static_cast_int (float_add v (1 / 2))) (\<lambda>y.
     assign_xy hp img x y val))"

definition setPixel4 :: "'a heap \<Rightarrow> MinimalImage \<Rightarrow> real \<Rightarrow> real \<Rightarrow> 'a \<Rightarrow> error + 'a heap" where
  "setPixel4 hp img u v val =
     ebind (static_cast_int u) (\<lambda>iu.
     ebind (static_cast_int v) (\<lambda>iv.
     ebind (chk (iu + 1)) (\<lambda>iu1.
     ebind (chk (iv + 1)) (\<lambda>iv1.
     ebind (assign_xy hp img iu1 iv1 val) (\<lambda>hp1.
     ebind (assign_xy hp1 img iu1 iv val) (\<lambda>hp2.
     ebind (assign_xy hp2 img iu iv1 val) (\<lambda>hp3.
     assign_xy hp3 img iu iv val)))))))"





subsection \<open>Well-formed images\<close>

text \<open>
  The invariant of section 3 of the specification: the storage behind \<open>data\<close> is a
  live array that holds the \<open>stride * h\<close> elements of the image, and that count is
  an \<^verbatim>\<open>int\<close>.
\<close>

definition valid_image :: "'a heap \<Rightarrow> MinimalImage \<Rightarrow> bool" where
  "valid_image hp img \<longleftrightarrow>
     0 \<le> stride img \<and> 0 \<le> h img \<and> int_ok (stride img * h img) \<and>
     (case data img of
        Null \<Rightarrow> False
      | Ptr b off \<Rightarrow>
          (case live hp b of
             None \<Rightarrow> False
           | Some cells \<Rightarrow> 0 \<le> off \<and> off + stride img * h img \<le> int (length cells)))"

text \<open>
  What \<^verbatim>\<open>delete[] data\<close> needs when an assignment releases the old storage of its
  target: an owning image holds the start of a live array.
\<close>

definition releasable :: "'a heap \<Rightarrow> MinimalImage \<Rightarrow> bool" where
  "releasable hp img \<longleftrightarrow>
     (case data img of
        Null \<Rightarrow> True
      | Ptr b off \<Rightarrow> \<not> ownData img \<or> (off = 0 \<and> live hp b \<noteq> None))"

text \<open>The stride a constructor resolves its argument to.\<close>

definition resolved_stride :: "int \<Rightarrow> int \<Rightarrow> int" where
  "resolved_stride w' stride' = (if stride' \<le> 0 then w' else stride')"

text \<open>
  The element \<open>x + y * stride\<close> places after \<open>data\<close>: the reference \<^verbatim>\<open>at(x, y)\<close>
  returns wherever its arithmetic is defined (lemma \<open>at_xy_pixel_ref\<close>).
\<close>

definition pixel_ref :: "MinimalImage \<Rightarrow> int \<Rightarrow> int \<Rightarrow> ptr" where
  "pixel_ref img x y =
     (case data img of Null \<Rightarrow> Null | Ptr b off \<Rightarrow> Ptr b (off + (x + y * stride img)))"



text \<open>
  The vocabulary of the claims about copies. \<open>independent hp a b\<close>: in the heap \<open>hp\<close>,
  writing any element of one image through the linear accessor succeeds and leaves
  every element of the other as it was. \<open>shared hp a b\<close>: writing an element through
  either image succeeds and the other reads the written value at the same index.
  \<open>deep_copy hp b hp' c\<close>: \<open>c\<close> in the heap \<open>hp'\<close> is an owning image with the
  geometry of \<open>b\<close>, its \<open>stride * h\<close> elements are those \<open>b\<close> had in \<open>hp\<close> and still
  has in \<open>hp'\<close>, it lives in another array than \<open>b\<close>, and the two are independent.
\<close>

definition independent :: "'a heap \<Rightarrow> MinimalImage \<Rightarrow> MinimalImage \<Rightarrow> bool" where
  "independent hp a b \<longleftrightarrow>
     (\<forall>i j val. 0 \<le> i \<and> i < stride a * h a \<and> 0 \<le> j \<and> j < stride b * h b \<longrightarrow>
        (\<exists>hp'. assign_i hp a i val = Inr hp' \<and> read_i hp' b j = read_i hp b j) \<and>
        (\<exists>hp'. assign_i hp b j val = Inr hp' \<and> read_i hp' a i = read_i hp a i))"

definition shared :: "'a heap \<Rightarrow> MinimalImage \<Rightarrow> MinimalImage \<Rightarrow> bool" where
  "shared hp a b \<longleftrightarrow>
     (\<forall>i val. 0 \<le> i \<and> i < stride a * h a \<longrightarrow>
        (\<exists>hp'. assign_i hp a i val = Inr hp' \<and> read_i hp' b i = Inr (Some val)) \<and>
        (\<exists>hp'. assign_i hp b i val = Inr hp' \<and> read_i hp' a i = Inr (Some val)))"

definition deep_copy :: "'a heap \<Rightarrow> MinimalImage \<Rightarrow> 'a heap \<Rightarrow> MinimalImage \<Rightarrow> bool" where
  "deep_copy hp b hp' c \<longleftrightarrow>
     w c = w b \<and> h c = h b \<and> stride c = stride b \<and> ownData c \<and>
     valid_image hp' c \<and> valid_image hp' b \<and>
     block_of (data c) \<noteq> block_of (data b) \<and>
     (\<forall>i. 0 \<le> i \<and> i < stride b * h b \<longrightarrow>
        (\<exists>x. read_i hp b i = Inr x \<and> read_i hp' c i = Inr x \<and> read_i hp' b i = Inr x)) \<and>
     independent hp' c b"

section \<open>Basic facts\<close>


lemma ebind_Inr [simp]: "ebind (Inr x) f = f x"
  by (simp add: ebind_def)

lemma ebind_Inl [simp]: "ebind (Inl e) f = Inl e"
  by (simp add: ebind_def)

lemma int_ok_mono: "0 \<le> a \<Longrightarrow> a \<le> b \<Longrightarrow> int_ok b \<Longrightarrow> int_ok a"
  by (simp add: int_ok_def INT_MIN_def)

lemma pixel_index_bounds:
  fixes x y s n :: int
  assumes "0 \<le> x" "x < s" "0 \<le> y" "y < n"
  shows "0 \<le> y * s" "y * s \<le> x + y * s" "x + y * s < s * n"
proof -
  have s: "0 < s" using assms by linarith
  show "0 \<le> y * s" using assms s by simp
  show "y * s \<le> x + y * s" using assms by simp
  have "x + y * s < s + y * s" using assms by simp
  also have "\<dots> = (y + 1) * s" by (simp add: algebra_simps)
  also have "\<dots> \<le> n * s" using assms s by (intro mult_right_mono) auto
  finally show "x + y * s < s * n" by (simp add: mult.commute)
qed

lemma at_xy_valid:
  assumes "int_ok (stride img * h img)" "0 \<le> x" "x < stride img" "0 \<le> y" "y < h img"
    and "data img = Ptr b off"
  shows "at_xy img x y = Inr (Ptr b (off + (x + y * stride img)))"
proof -
  note bs = pixel_index_bounds [OF assms(2-5)]
  have "int_ok (y * stride img)"
    using bs assms(1,2) unfolding int_ok_def INT_MIN_def by linarith
  moreover have "int_ok (x + y * stride img)"
    using bs assms(1,2) unfolding int_ok_def INT_MIN_def by linarith
  ultimately show ?thesis
    using assms(6) by (simp add: at_xy_def chk_def index_ptr_def)
qed


lemma valid_image_at_xy:
  assumes "valid_image hp img" "0 \<le> x" "x < stride img" "0 \<le> y" "y < h img"
  obtains b off cells where
    "data img = Ptr b off" "live hp b = Some cells" "0 \<le> off"
    "off + stride img * h img \<le> int (length cells)"
    "at_xy img x y = Inr (Ptr b (off + (x + y * stride img)))"
    "0 \<le> x + y * stride img" "x + y * stride img < stride img * h img"
proof -
  from assms(1) obtain b off cells where d: "data img = Ptr b off" "live hp b = Some cells"
      "0 \<le> off" "off + stride img * h img \<le> int (length cells)"
    by (auto simp: valid_image_def split: ptr.splits option.splits)
  from assms(1) have ok: "int_ok (stride img * h img)"
    by (simp add: valid_image_def)
  note bs = pixel_index_bounds [OF assms(2-5)]
  have "0 \<le> x + y * stride img" using bs by linarith
  with d ok bs(3) at_xy_valid [OF ok assms(2-5) d(1)] that show thesis
    by blast
qed

subsection \<open>The heap\<close>

lemma live_lt: "live hp b = Some c \<Longrightarrow> b < length hp"
  by (simp add: live_def split: if_splits)

lemma live_update: "b < length hp \<Longrightarrow> live (hp[b := x]) b' = (if b' = b then x else live hp b')"
  by (auto simp: live_def)

lemma valid_image_shape:
  assumes "\<And>b. map_option length (live hp' b) = map_option length (live hp b)"
  shows "valid_image hp' i = valid_image hp i"
proof (cases "data i")
  case Null
  then show ?thesis by (simp add: valid_image_def)
next
  case (Ptr b off)
  show ?thesis
    using assms [of b] Ptr
    by (cases "live hp b"; cases "live hp' b") (auto simp: valid_image_def)
qed

lemma store_ok:
  assumes "live hp b = Some cells" "0 \<le> k" "k < int (length cells)"
  shows "store hp (Ptr b k) v = Inr (hp[b := Some (cells[nat k := Some v])])"
  using assms by (simp add: store_def)

lemma store_Inr:
  assumes "store hp r v = Inr hp'"
  obtains b k cells where "r = Ptr b k" "live hp b = Some cells" "0 \<le> k" "k < int (length cells)"
    "hp' = hp[b := Some (cells[nat k := Some v])]"
  using assms by (auto simp: store_def split: ptr.splits option.splits if_splits)

lemma store_effect:
  assumes "store hp r v = Inr hp'"
  shows "load hp' r = Inr (Some v)"
    and "\<And>p. p \<noteq> r \<Longrightarrow> load hp' p = load hp p"
    and "\<And>i. valid_image hp' i = valid_image hp i"
proof -
  from assms obtain b k cells where r: "r = Ptr b k" "live hp b = Some cells" "0 \<le> k"
      "k < int (length cells)" "hp' = hp[b := Some (cells[nat k := Some v])]"
    by (rule store_Inr)
  have lt: "b < length hp" using r(2) by (rule live_lt)
  have lv: "live hp' b' = (if b' = b then Some (cells[nat k := Some v]) else live hp b')" for b'
    unfolding r(5) using lt by (rule live_update)
  show "load hp' r = Inr (Some v)"
    using r(1,3,4) by (simp add: load_def lv)
  show "load hp' p = load hp p" if "p \<noteq> r" for p
  proof (cases p)
    case Null
    then show ?thesis by (simp add: load_def)
  next
    case (Ptr b' k')
    show ?thesis
    proof (cases "b' = b")
      case False
      with Ptr show ?thesis by (simp add: load_def lv)
    next
      case True
      with Ptr that r(1) have "k' \<noteq> k" by simp
      then have "0 \<le> k' \<Longrightarrow> nat k' \<noteq> nat k" using r(3) by simp
      with Ptr True r(2) show ?thesis
        by (auto simp: load_def lv)
    qed
  qed
  have "map_option length (live hp' b') = map_option length (live hp b')" for b'
    using r(2) by (simp add: lv)
  then show "valid_image hp' i = valid_image hp i" for i
    by (rule valid_image_shape)
qed


subsection \<open>One pixel\<close>

lemma at_xy_pixel_ref:
  assumes "valid_image hp img" "0 \<le> x" "x < stride img" "0 \<le> y" "y < h img"
  shows "at_xy img x y = Inr (pixel_ref img x y)"
    and "\<exists>c. load hp (pixel_ref img x y) = Inr c"
proof -
  from assms obtain b off cells where d: "data img = Ptr b off" "live hp b = Some cells"
      "0 \<le> off" "off + stride img * h img \<le> int (length cells)"
      "at_xy img x y = Inr (Ptr b (off + (x + y * stride img)))"
      "0 \<le> x + y * stride img" "x + y * stride img < stride img * h img"
    by (rule valid_image_at_xy)
  show "at_xy img x y = Inr (pixel_ref img x y)"
    using d(1,5) by (simp add: pixel_ref_def)
  show "\<exists>c. load hp (pixel_ref img x y) = Inr c"
    using d(1,2,3,4,6,7) by (simp add: pixel_ref_def load_def)
qed


lemma assign_xy_step:
  assumes "valid_image hp img" "0 \<le> x" "x < stride img" "0 \<le> y" "y < h img"
  obtains hp' where "assign_xy hp img x y v = Inr hp'"
    "load hp' (pixel_ref img x y) = Inr (Some v)"
    "\<And>p. p \<noteq> pixel_ref img x y \<Longrightarrow> load hp' p = load hp p"
    "\<And>i. valid_image hp' i = valid_image hp i"
proof -
  from assms obtain b off cells where d: "data img = Ptr b off" "live hp b = Some cells"
      "0 \<le> off" "off + stride img * h img \<le> int (length cells)"
      "at_xy img x y = Inr (Ptr b (off + (x + y * stride img)))"
      "0 \<le> x + y * stride img" "x + y * stride img < stride img * h img"
    by (rule valid_image_at_xy)
  have pr: "pixel_ref img x y = Ptr b (off + (x + y * stride img))"
    using d(1) by (simp add: pixel_ref_def)
  have "store hp (Ptr b (off + (x + y * stride img))) v
      = Inr (hp[b := Some (cells[nat (off + (x + y * stride img)) := Some v])])"
    using d(2,3,4,6,7) by (intro store_ok) auto
  then have st: "store hp (pixel_ref img x y) v
      = Inr (hp[b := Some (cells[nat (off + (x + y * stride img)) := Some v])])"
    by (simp add: pr)
  then have "assign_xy hp img x y v
      = Inr (hp[b := Some (cells[nat (off + (x + y * stride img)) := Some v])])"
    using d(5) pr by (simp add: assign_xy_def)
  with store_effect [OF st] that show thesis by blast
qed

lemma in_range_int_ok:
  assumes "valid_image hp img" "0 \<le> x" "x < stride img" "0 \<le> y" "y < h img"
  shows "int_ok x" "int_ok y" "int_ok (x + 1)" "int_ok (y + 1)"
proof -
  from assms(1) have ok: "int_ok (stride img * h img)"
    by (simp add: valid_image_def)
  note bs = pixel_index_bounds [OF assms(2-5)]
  have "y * 1 \<le> y * stride img"
    using assms(2-4) by (intro mult_left_mono) auto
  then have y: "y < stride img * h img" using bs assms(2) by linarith
  have x: "x < stride img * h img" using bs by linarith
  show "int_ok x" "int_ok y" "int_ok (x + 1)" "int_ok (y + 1)"
    using x y ok assms(2,4) unfolding int_ok_def INT_MIN_def by linarith+
qed

lemma static_cast_int_floor:
  assumes "0 \<le> \<lfloor>f\<rfloor>" "int_ok \<lfloor>f\<rfloor>"
  shows "static_cast_int f = Inr \<lfloor>f\<rfloor>"
proof -
  from assms(1) have "0 \<le> f" by simp
  then show ?thesis using assms(2) by (simp add: static_cast_int_def trunc_toward_zero_def)
qed

section \<open>Construction\<close>

text \<open>
  C6, as amended. For a width \<open>w' > 0\<close> and a height \<open>h' > 0\<close>, the wrapping
  constructor resolves the stride to \<open>w'\<close> when the stride argument is not positive
  (the default \<open>- 1\<close> included) and to the argument when it is positive. The owning
  constructor does the same and appends one new array of exactly \<open>stride * h\<close>
  indeterminate cells to the heap, with \<open>data\<close> at its start, whenever \<open>stride * h\<close>
  is at most \<open>INT_MAX\<close>; when the product is larger, the \<^verbatim>\<open>int\<close> multiplication in
  \<^verbatim>\<open>new T[stride * h]\<close> overflows and the construction is undefined.
\<close>

theorem constructors_resolve_stride:
  assumes "0 < w'" "0 < h'"
  shows "stride (MinimalImage_wrap w' h' p s') = resolved_stride w' s'
       \<and> stride (MinimalImage_wrap_default w' h' p) = w'
       \<and> MinimalImage_own hp w' h' s' =
           (if int_ok (resolved_stride w' s' * h')
            then Inr (hp @ [Some (replicate (nat (resolved_stride w' s' * h')) None)],
                      \<lparr>w = w', h = h', stride = resolved_stride w' s',
                       data = Ptr (length hp) 0, ownData = True\<rparr>)
            else Inl SignedOverflow)
       \<and> MinimalImage_own_default hp w' h' =
           (if int_ok (w' * h')
            then Inr (hp @ [Some (replicate (nat (w' * h')) None)],
                      \<lparr>w = w', h = h', stride = w',
                       data = Ptr (length hp) 0, ownData = True\<rparr>)
            else Inl SignedOverflow)"
proof -
  have own: "MinimalImage_own hp w' h' s' =
           (if int_ok (resolved_stride w' s' * h')
            then Inr (hp @ [Some (replicate (nat (resolved_stride w' s' * h')) None)],
                      \<lparr>w = w', h = h', stride = resolved_stride w' s',
                       data = Ptr (length hp) 0, ownData = True\<rparr>)
            else Inl SignedOverflow)" for s'
  proof -
    have pos: "0 < resolved_stride w' s'"
      using assms by (simp add: resolved_stride_def)
    have nn: "\<not> resolved_stride w' s' * h' < 0"
      using pos assms(2) by (simp add: mult_less_0_iff)
    have rs: "(if 0 < s' then s' else w') = resolved_stride w' s'"
      by (simp add: resolved_stride_def)
    show ?thesis
      unfolding MinimalImage_own_def Let_def rs
      using nn by (simp add: chk_def new_array_def)
  qed
  have dflt: "resolved_stride w' (- 1) = w'"
    by (simp add: resolved_stride_def)
  have "stride (MinimalImage_wrap w' h' p s') = resolved_stride w' s'"
    by (simp add: MinimalImage_wrap_def resolved_stride_def)
  moreover have "stride (MinimalImage_wrap_default w' h' p) = w'"
    by (simp add: MinimalImage_wrap_default_def MinimalImage_wrap_def)
  moreover note own [of s']
  moreover have "MinimalImage_own_default hp w' h' =
           (if int_ok (w' * h')
            then Inr (hp @ [Some (replicate (nat (w' * h')) None)],
                      \<lparr>w = w', h = h', stride = w',
                       data = Ptr (length hp) 0, ownData = True\<rparr>)
            else Inl SignedOverflow)"
    using own [of "- 1"] unfolding dflt MinimalImage_own_default_def .
  ultimately show ?thesis by blast
qed

theorem constructors_resolve_stride_witness:
  "(0::int) < 4 \<and> (0::int) < 3
   \<and> stride (MinimalImage_wrap 4 3 (Ptr 0 0) 6) = 6
   \<and> stride (MinimalImage_wrap 4 3 (Ptr 0 0) 0) = 4
   \<and> MinimalImage_own ([] :: nat heap) 4 3 6 =
       Inr ([Some (replicate 18 None)],
            \<lparr>w = 4, h = 3, stride = 6, data = Ptr 0 0, ownData = True\<rparr>)
   \<and> MinimalImage_own_default ([] :: nat heap) 4 3 =
       Inr ([Some (replicate 12 None)],
            \<lparr>w = 4, h = 3, stride = 4, data = Ptr 0 0, ownData = True\<rparr>)"
  using constructors_resolve_stride [of 4 3 "Ptr 0 0" 6 "[] :: nat heap"]
    constructors_resolve_stride [of 4 3 "Ptr 0 0" 0 "[] :: nat heap"]
  by (simp add: resolved_stride_def int_ok_def INT_MIN_def INT_MAX_def)

text \<open>
  The claim as it was stated promised the allocation for every positive width and
  height. At \<open>w' = h' = 65536\<close> the stride resolves to 65536, \<open>stride * h\<close> is
  \<open>2 ^ 32\<close>, and the owning constructor, with the default stride or with a stride
  argument, allocates nothing: it overflows.
\<close>

theorem constructors_overflow_counterexample:
  "(0::int) < 65536
   \<and> resolved_stride 65536 (- 1) * 65536 = 4294967296
   \<and> \<not> int_ok 4294967296
   \<and> MinimalImage_own ([] :: nat heap) 65536 65536 (- 1) = Inl SignedOverflow
   \<and> MinimalImage_own ([] :: nat heap) 65536 65536 65536 = Inl SignedOverflow
   \<and> MinimalImage_own_default ([] :: nat heap) 65536 65536 = Inl SignedOverflow"
  by (simp add: resolved_stride_def MinimalImage_own_default_def MinimalImage_own_def chk_def
      int_ok_def INT_MIN_def INT_MAX_def)

section \<open>Accessors\<close>



section \<open>Moving\<close>

lemma release_releasable:
  assumes "releasable hp img"
  shows "release hp img =
           Inr (case data img of
                  Null \<Rightarrow> hp
                | Ptr b off \<Rightarrow> if ownData img then hp[b := None] else hp)"
proof (cases "data img")
  case Null
  then show ?thesis by (simp add: release_def)
next
  case (Ptr b off)
  show ?thesis
  proof (cases "ownData img")
    case True
    with assms Ptr obtain cells where "off = 0" "live hp b = Some cells"
      by (auto simp: releasable_def)
    with True Ptr show ?thesis
      by (simp add: release_def delete_array_def)
  next
    case False
    with Ptr show ?thesis by (simp add: release_def)
  qed
qed

text \<open>
  C2. The move constructor gives the new object every field of its argument \<open>b\<close> and
  leaves \<open>b\<close> with a null \<open>data\<close> and a cleared ownership flag. Move assignment to a
  different object \<open>this\<close>, whose old storage can be released, succeeds and does the
  same: afterwards the object at \<open>this\<close> has the former \<open>w\<close>, \<open>h\<close>, \<open>stride\<close>,
  \<open>data\<close> and \<open>ownData\<close> of the object at \<open>other\<close>, whose \<open>data\<close> is null and
  whose ownership flag is cleared.
\<close>

theorem move_transfers_storage:
  assumes "this \<noteq> other" "releasable (heap st) (objs st this)"
  shows "fst (MinimalImage_move b) = b
       \<and> data (snd (MinimalImage_move b)) = Null
       \<and> \<not> ownData (snd (MinimalImage_move b))
       \<and> (\<exists>st'. move_assign st this other = Inr st'
              \<and> objs st' this = objs st other
              \<and> w (objs st' this) = w (objs st other)
              \<and> h (objs st' this) = h (objs st other)
              \<and> stride (objs st' this) = stride (objs st other)
              \<and> data (objs st' this) = data (objs st other)
              \<and> ownData (objs st' this) = ownData (objs st other)
              \<and> data (objs st' other) = Null
              \<and> \<not> ownData (objs st' other))"
proof -
  have ctor: "fst (MinimalImage_move b) = b \<and> data (snd (MinimalImage_move b)) = Null
       \<and> \<not> ownData (snd (MinimalImage_move b))"
    by (simp add: MinimalImage_move_def)
  obtain hp where rel: "release (heap st) (objs st this) = Inr hp"
    using release_releasable [OF assms(2)] by blast
  define st' where "st' =
      \<lparr>objs = (objs st)(this := (objs st this)\<lparr>w := w (objs st other), h := h (objs st other),
                  stride := stride (objs st other), data := data (objs st other),
                  ownData := ownData (objs st other)\<rparr>,
                other := (objs st other)\<lparr>data := Null, ownData := False\<rparr>),
       heap = hp\<rparr>"
  have run: "move_assign st this other = Inr st'"
    using assms(1) rel by (simp add: move_assign_def st'_def Let_def)
  have dst: "objs st' this = objs st other"
    using assms(1) by (simp add: st'_def)
  have src: "data (objs st' other) = Null" "\<not> ownData (objs st' other)"
    by (simp_all add: st'_def)
  from ctor run dst src show ?thesis by simp
qed

theorem move_transfers_storage_witness:
  "(0::nat) \<noteq> 1
   \<and> releasable ([Some [Some (5::nat)], Some [Some 7, Some 8]])
        \<lparr>w = 1, h = 1, stride = 1, data = Ptr 0 0, ownData = True\<rparr>
   \<and> move_assign
        \<lparr>objs = (\<lambda>a. if a = 0 then \<lparr>w = 1, h = 1, stride = 1, data = Ptr 0 0, ownData = True\<rparr>
                       else \<lparr>w = 2, h = 1, stride = 2, data = Ptr 1 0, ownData = True\<rparr>),
         heap = [Some [Some (5::nat)], Some [Some 7, Some 8]]\<rparr> 0 1
      = Inr \<lparr>objs = (\<lambda>a. if a = 0 then \<lparr>w = 2, h = 1, stride = 2, data = Ptr 1 0, ownData = True\<rparr>
                       else if a = 1 then \<lparr>w = 2, h = 1, stride = 2, data = Null, ownData = False\<rparr>
                       else \<lparr>w = 2, h = 1, stride = 2, data = Ptr 1 0, ownData = True\<rparr>),
             heap = [None, Some [Some 7, Some 8]]\<rparr>"
  using move_transfers_storage [of 0 1
      "\<lparr>objs = (\<lambda>a. if a = 0 then \<lparr>w = 1, h = 1, stride = 1, data = Ptr 0 0, ownData = True\<rparr>
                       else \<lparr>w = 2, h = 1, stride = 2, data = Ptr 1 0, ownData = True\<rparr>),
         heap = [Some [Some (5::nat)], Some [Some 7, Some 8]]\<rparr>"
      "\<lparr>w = 2, h = 1, stride = 2, data = Ptr 1 0, ownData = True\<rparr>"]
  by (auto simp add: releasable_def live_def move_assign_def release_def delete_array_def Let_def
      fun_eq_iff)

section \<open>Self-assignment\<close>

text \<open>
  C8. Copy-assigning an object to itself returns the state it was given: no field of
  any object changes, and the heap is the same, so no array is released or written.
\<close>

theorem copy_assign_self:
  "copy_assign st p p = Inr st"
  by (simp add: copy_assign_def)

theorem copy_assign_self_witness:
  "copy_assign \<lparr>objs = (\<lambda>a. \<lparr>w = 1, h = 1, stride = 1, data = Ptr 0 0, ownData = True\<rparr>),
                heap = [Some [Some (5::nat)]]\<rparr> 0 0
   = Inr \<lparr>objs = (\<lambda>a. \<lparr>w = 1, h = 1, stride = 1, data = Ptr 0 0, ownData = True\<rparr>),
          heap = [Some [Some (5::nat)]]\<rparr>"
  using copy_assign_self [of "\<lparr>objs = (\<lambda>a. \<lparr>w = 1, h = 1, stride = 1, data = Ptr 0 0, ownData = True\<rparr>),
                heap = [Some [Some (5::nat)]]\<rparr>" 0]
  by simp

section \<open>Bulk fill\<close>







section \<open>Markers\<close>

subsection \<open>One pixel at the nearest position\<close>

lemma exponent_from_eq:
  assumes "2 powi e \<le> x" "x < 2 powi (e + 1)" "e \<le> e0" "nat (e0 - e) \<le> n"
  shows "exponent_from n e0 x = e"
  using assms(3,4)
proof (induction n arbitrary: e0)
  case 0
  then show ?case by simp
next
  case (Suc n)
  show ?case
  proof (cases "e0 = e")
    case True
    then show ?thesis using assms(1) by simp
  next
    case False
    then have lt: "e + 1 \<le> e0" using Suc.prems(1) by simp
    have "(2::real) powi (e + 1) \<le> 2 powi e0"
      using lt by (intro power_int_increasing) simp_all
    then have "\<not> 2 powi e0 \<le> x" using assms(2) by linarith
    moreover have "exponent_from n (e0 - 1) x = e"
      using lt Suc.prems(2) by (intro Suc.IH) linarith+
    ultimately show ?thesis by simp
  qed
qed

lemma float_exponent_eq:
  assumes "2 powi e \<le> x" "x < 2 powi (e + 1)" "- 126 \<le> e" "e \<le> 127"
  shows "float_exponent x = e"
  unfolding float_exponent_def
  using assms by (intro exponent_from_eq) simp_all

lemma round_to_float_eq:
  assumes "2 powi e \<le> \<bar>x\<bar>" "\<bar>x\<bar> < 2 powi (e + 1)" "- 126 \<le> e" "e \<le> 127"
  shows "round_to_float x
       = sgn x * (of_int (round_half_even (\<bar>x\<bar> / 2 powi (e - 23))) * 2 powi (e - 23))"
  using float_exponent_eq [OF assms] by (simp add: round_to_float_def Let_def)

text \<open>
  What \<^verbatim>\<open>setPixel1\<close> does: it writes the pixel whose coordinates are the two float
  sums \<^verbatim>\<open>u + 0.5f\<close> and \<^verbatim>\<open>v + 0.5f\<close> rounded down, when that pixel is in
  \<open>[0, stride) \<times> [0, h)\<close>, and nothing else.
\<close>

lemma setPixel1_writes_floor_of_sum:
  assumes "valid_image hp img"
    and "0 \<le> \<lfloor>float_add u (1 / 2)\<rfloor>" "\<lfloor>float_add u (1 / 2)\<rfloor> < stride img"
    and "0 \<le> \<lfloor>float_add v (1 / 2)\<rfloor>" "\<lfloor>float_add v (1 / 2)\<rfloor> < h img"
  shows "\<exists>r hp'. at_xy img \<lfloor>float_add u (1 / 2)\<rfloor> \<lfloor>float_add v (1 / 2)\<rfloor> = Inr r
           \<and> setPixel1 hp img u v val = Inr hp'
           \<and> load hp' r = Inr (Some val)
           \<and> (\<forall>p. p \<noteq> r \<longrightarrow> load hp' p = load hp p)"
proof -
  let ?x = "\<lfloor>float_add u (1 / 2)\<rfloor>" and ?y = "\<lfloor>float_add v (1 / 2)\<rfloor>"
  note ok = in_range_int_ok [OF assms]
  have cx: "static_cast_int (float_add u (1 / 2)) = Inr ?x"
    using assms(2) ok(1) by (rule static_cast_int_floor)
  have cy: "static_cast_int (float_add v (1 / 2)) = Inr ?y"
    using assms(4) ok(2) by (rule static_cast_int_floor)
  obtain hp' where s: "assign_xy hp img ?x ?y val = Inr hp'"
    "load hp' (pixel_ref img ?x ?y) = Inr (Some val)"
    "\<And>p. p \<noteq> pixel_ref img ?x ?y \<Longrightarrow> load hp' p = load hp p"
    using assign_xy_step [OF assms] by blast
  have "setPixel1 hp img u v val = Inr hp'"
    using cx cy s(1) by (simp add: setPixel1_def)
  moreover note at_xy_pixel_ref(1) [OF assms]
  ultimately show ?thesis using s(2,3) by blast
qed

text \<open>Float sums evaluated: two exact ones, and the tie just below one.\<close>

lemma powi_values:
  "(2::real) powi (- 25) = 1 / 33554432" "(2::real) powi (- 24) = 1 / 16777216"
  "(2::real) powi (- 23) = 1 / 8388608" "(2::real) powi (- 2) = 1 / 4"
  "(2::real) powi (- 1) = 1 / 2" "(2::real) powi 1 = 2"
  by (simp_all add: power_int_def power_divide)

lemma float_add_exact:
  "float_add (5 / 4) (1 / 2) = 7 / 4" "float_add (3 / 4) (1 / 2) = 5 / 4"
  "float_add 0 (1 / 2) = 1 / 2"
proof -
  have r: "round_half_even 14680064 = 14680064" "round_half_even 10485760 = 10485760"
    "round_half_even 8388608 = 8388608"
    by (simp_all add: round_half_even_def Let_def)
  have "round_to_float (7 / 4) = 7 / 4"
    by (subst round_to_float_eq [of 0]) (simp_all add: powi_values r)
  then show "float_add (5 / 4) (1 / 2) = 7 / 4" by (simp add: float_add_def)
  have "round_to_float (5 / 4) = 5 / 4"
    by (subst round_to_float_eq [of 0]) (simp_all add: powi_values r)
  then show "float_add (3 / 4) (1 / 2) = 5 / 4" by (simp add: float_add_def)
  have "round_to_float (1 / 2) = 1 / 2"
    by (subst round_to_float_eq [of "- 1"]) (simp_all add: powi_values r)
  then show "float_add 0 (1 / 2) = 1 / 2" by (simp add: float_add_def)
qed

lemma float_below_half:
  "round_to_float (16777215 / 33554432) = 16777215 / 33554432"
  "float_add (16777215 / 33554432) (1 / 2) = 1"
proof -
  have r: "round_half_even 16777215 = 16777215" "round_half_even (33554431 / 2) = 16777216"
    by (simp_all add: round_half_even_def Let_def)
  show "round_to_float (16777215 / 33554432) = 16777215 / 33554432"
    by (subst round_to_float_eq [of "- 2"]) (simp_all add: powi_values r)
  have "round_to_float (33554431 / 33554432) = 1"
    by (subst round_to_float_eq [of "- 1"]) (simp_all add: powi_values r)
  then show "float_add (16777215 / 33554432) (1 / 2) = 1" by (simp add: float_add_def)
qed

lemma setPixel1_example:
  "setPixel1 [Some [Some (0::nat), Some 0, Some 0, Some 0, Some 0, Some 0]]
         \<lparr>w = 3, h = 2, stride = 3, data = Ptr 0 0, ownData = True\<rparr> (5 / 4) (3 / 4) 9
       = Inr [Some [Some 0, Some 0, Some 0, Some 0, Some 9, Some 0]]"
  by (simp add: float_add_exact live_def int_ok_def INT_MIN_def INT_MAX_def setPixel1_def
      static_cast_int_def trunc_toward_zero_def assign_xy_def at_xy_def chk_def index_ptr_def
      store_def)

text \<open>
  C3. The claim: on coordinates whose pixel is in range, \<^verbatim>\<open>setPixel1(u, v, val)\<close>
  writes exactly the pixel \<open>(\<lfloor>u + 0.5\<rfloor>, \<lfloor>v + 0.5\<rfloor>)\<close>, the one nearest to \<open>(u, v)\<close>,
  which is also what the comment on the function says it does. The code does not,
  at \<open>u = 16777215 / 33554432\<close>, the largest float below one half, and \<open>v = 0\<close>, on
  an image of 3 by 2 pixels filled with 0: \<open>u\<close> is a float, \<open>\<lfloor>u + 0.5\<rfloor> = 0\<close> and
  \<open>\<lfloor>v + 0.5\<rfloor> = 0\<close>, so the claim's pixel is \<open>(0, 0)\<close>; the float sum \<^verbatim>\<open>u + 0.5f\<close> lies
  half-way between two floats and is rounded to 1, and \<^verbatim>\<open>setPixel1(u, v, 9)\<close> writes
  the pixel \<open>(1, 0)\<close> and leaves \<open>(0, 0)\<close> as it was.
\<close>

theorem setPixel1_below_half_writes_next_pixel:
  "round_to_float (16777215 / 33554432) = 16777215 / 33554432
   \<and> \<lfloor>(16777215 / 33554432 :: real) + 1 / 2\<rfloor> = 0
   \<and> \<lfloor>(0 :: real) + 1 / 2\<rfloor> = 0
   \<and> float_add (16777215 / 33554432) (1 / 2) = 1
   \<and> valid_image [Some [Some (0::nat), Some 0, Some 0, Some 0, Some 0, Some 0]]
        \<lparr>w = 3, h = 2, stride = 3, data = Ptr 0 0, ownData = True\<rparr>
   \<and> setPixel1 [Some [Some (0::nat), Some 0, Some 0, Some 0, Some 0, Some 0]]
         \<lparr>w = 3, h = 2, stride = 3, data = Ptr 0 0, ownData = True\<rparr>
         (16777215 / 33554432) 0 9
       = Inr [Some [Some 0, Some 9, Some 0, Some 0, Some 0, Some 0]]"
  by (simp add: float_below_half float_add_exact valid_image_def live_def int_ok_def
      INT_MIN_def INT_MAX_def setPixel1_def static_cast_int_def trunc_toward_zero_def
      assign_xy_def at_xy_def chk_def index_ptr_def store_def)



text \<open>
  \<^verbatim>\<open>static_cast<int>\<close> truncates towards zero, so the theorem above needs the
  rounded-down coordinates themselves to be in range: for \<open>u\<close> between \<open>- 1\<close> and \<open>0\<close>
  the column \<^verbatim>\<open>setPixel4\<close> starts at is \<open>0\<close>, not \<open>\<lfloor>u\<rfloor> = - 1\<close>.
\<close>

lemma setPixel4_negative_fraction:
  "\<lfloor>- 1 / 2 :: real\<rfloor> = - 1
   \<and> setPixel4 [Some [Some (0::nat), Some 0, Some 0, Some 0, Some 0, Some 0]]
         \<lparr>w = 3, h = 2, stride = 3, data = Ptr 0 0, ownData = True\<rparr> (- 1 / 2) 0 9
       = Inr [Some [Some 9, Some 9, Some 0, Some 9, Some 9, Some 0]]"
proof -
  have c: "\<lceil>- (1 / 2) :: real\<rceil> = 0"
    by (simp add: ceiling_eq_iff)
  show ?thesis
    by (simp add: live_def int_ok_def INT_MIN_def INT_MAX_def setPixel4_def
        static_cast_int_def trunc_toward_zero_def assign_xy_def at_xy_def chk_def index_ptr_def
        store_def c)
qed









section \<open>Copying\<close>

lemma assign_i_step:
  assumes "valid_image hp a" "0 \<le> i" "i < stride a * h a"
  obtains r hp' where "at_i a i = Inr r" "at_i_const a i = Inr r"
    "block_of r = block_of (data a)"
    "assign_i hp a i val = Inr hp'"
    "load hp' r = Inr (Some val)"
    "\<And>p. p \<noteq> r \<Longrightarrow> load hp' p = load hp p"
proof -
  from assms(1) obtain b off cells where d: "data a = Ptr b off" "live hp b = Some cells"
      "0 \<le> off" "off + stride a * h a \<le> int (length cells)"
    by (auto simp: valid_image_def split: ptr.splits option.splits)
  have st: "store hp (Ptr b (off + i)) val = Inr (hp[b := Some (cells[nat (off + i) := Some val])])"
    using d(2,3,4) assms(2,3) by (intro store_ok) auto
  have "at_i a i = Inr (Ptr b (off + i))" "at_i_const a i = Inr (Ptr b (off + i))"
    "block_of (Ptr b (off + i)) = block_of (data a)"
    using d(1) by (simp_all add: at_i_def at_i_const_def index_ptr_def block_of_def)
  moreover from this(1) st have "assign_i hp a i val
      = Inr (hp[b := Some (cells[nat (off + i) := Some val])])"
    by (simp add: assign_i_def)
  ultimately show thesis
    using store_effect(1,2) [OF st] that by blast
qed

lemma independent_blocks:
  assumes "valid_image hp a" "valid_image hp b" "block_of (data a) \<noteq> block_of (data b)"
  shows "independent hp a b"
  unfolding independent_def
proof (intro allI impI)
  fix i j :: int and val :: 'a
  assume r: "0 \<le> i \<and> i < stride a * h a \<and> 0 \<le> j \<and> j < stride b * h b"
  obtain ra hpa where sa: "at_i a i = Inr ra" "at_i_const a i = Inr ra"
    "block_of ra = block_of (data a)" "assign_i hp a i val = Inr hpa"
    "\<And>p. p \<noteq> ra \<Longrightarrow> load hpa p = load hp p"
    using assign_i_step [OF assms(1), of i val] r by blast
  obtain rb hpb where sb: "at_i b j = Inr rb" "at_i_const b j = Inr rb"
    "block_of rb = block_of (data b)" "assign_i hp b j val = Inr hpb"
    "\<And>p. p \<noteq> rb \<Longrightarrow> load hpb p = load hp p"
    using assign_i_step [OF assms(2), of j val] r by blast
  have ne: "ra \<noteq> rb" using sa(3) sb(3) assms(3) by auto
  have "read_i hpa b j = read_i hp b j"
    using sb(2) sa(5) [of rb] ne by (simp add: read_i_def)
  moreover have "read_i hpb a i = read_i hp a i"
    using sa(2) sb(5) [of ra] ne by (simp add: read_i_def)
  ultimately show "(\<exists>hp'. assign_i hp a i val = Inr hp' \<and> read_i hp' b j = read_i hp b j) \<and>
        (\<exists>hp'. assign_i hp b j val = Inr hp' \<and> read_i hp' a i = read_i hp a i)"
    using sa(4) sb(4) by simp
qed

lemma shared_same_data:
  assumes "valid_image hp a" "data b = data a"
  shows "shared hp a b"
  unfolding shared_def
proof (intro allI impI)
  fix i :: int and val :: 'a
  assume r: "0 \<le> i \<and> i < stride a * h a"
  obtain ra hpa where sa: "at_i a i = Inr ra" "at_i_const a i = Inr ra"
    "assign_i hp a i val = Inr hpa" "load hpa ra = Inr (Some val)"
    using assign_i_step [OF assms(1), of i val] r by blast
  have e: "at_i b i = at_i a i" "at_i_const b i = at_i_const a i"
    using assms(2) by (simp_all add: at_i_def at_i_const_def)
  have "assign_i hp b i val = Inr hpa"
    using sa(1,3) e by (simp add: assign_i_def)
  moreover have "read_i hpa b i = Inr (Some val)" "read_i hpa a i = Inr (Some val)"
    using sa(2,4) e by (simp_all add: read_i_def)
  ultimately show "(\<exists>hp'. assign_i hp a i val = Inr hp' \<and> read_i hp' b i = Inr (Some val)) \<and>
        (\<exists>hp'. assign_i hp b i val = Inr hp' \<and> read_i hp' a i = Inr (Some val))"
    using sa(3) by simp
qed

lemma live_append: "live (hp @ [x]) k = (if k = length hp then x else live hp k)"
  by (auto simp: live_def nth_append)

lemma valid_image_append:
  assumes "valid_image hp b"
  shows "valid_image (hp @ [x]) b"
proof -
  from assms obtain bb off cells where d: "data b = Ptr bb off" "live hp bb = Some cells"
    by (auto simp: valid_image_def split: ptr.splits option.splits)
  have "bb \<noteq> length hp" using live_lt [OF d(2)] by simp
  then show ?thesis using assms d by (simp add: valid_image_def live_append)
qed

lemma read_i_append:
  assumes "valid_image hp b"
  shows "read_i (hp @ [x]) b i = read_i hp b i"
proof -
  from assms obtain bb off cells where d: "data b = Ptr bb off" "live hp bb = Some cells"
    by (auto simp: valid_image_def split: ptr.splits option.splits)
  have "bb \<noteq> length hp" using live_lt [OF d(2)] by simp
  then show ?thesis
    using d(1) by (simp add: read_i_def at_i_const_def index_ptr_def load_def live_append)
qed

lemma copy_into_new_array:
  assumes "valid_image hp b"
  obtains vs where
    "chk (stride b * h b) = Inr (stride b * h b)"
    "new_array hp (stride b * h b)
       = Inr (hp @ [Some (replicate (nat (stride b * h b)) None)], Ptr (length hp) 0)"
    "memcpy (hp @ [Some (replicate (nat (stride b * h b)) None)]) (Ptr (length hp) 0) (data b)
        (stride b * h b) = Inr (hp @ [Some vs])"
    "deep_copy hp b (hp @ [Some vs])
       \<lparr>w = w b, h = h b, stride = stride b, data = Ptr (length hp) 0, ownData = True\<rparr>"
proof -
  let ?n = "stride b * h b"
  let ?hp1 = "hp @ [Some (replicate (nat ?n) None)]"
  let ?c = "\<lparr>w = w b, h = h b, stride = stride b, data = Ptr (length hp) 0, ownData = True\<rparr>"
  from assms obtain bb off cells where d: "data b = Ptr bb off" "live hp bb = Some cells"
      "0 \<le> off" "off + ?n \<le> int (length cells)"
    by (auto simp: valid_image_def split: ptr.splits option.splits)
  have n0: "0 \<le> ?n" and ok: "int_ok ?n"
    using assms by (simp_all add: valid_image_def)
  have bb: "bb \<noteq> length hp" using live_lt [OF d(2)] by simp
  define vs where "vs = take (nat ?n) (drop (nat off) cells)"
  have len: "length vs = nat ?n"
    using d(3,4) n0 by (simp add: vs_def)
  have c1: "chk ?n = Inr ?n" using ok by (simp add: chk_def)
  have c2: "new_array hp ?n = Inr (?hp1, Ptr (length hp) 0)"
    using n0 by (simp add: new_array_def)
  have rd: "read_cells ?hp1 (data b) ?n = Inr vs"
    using d n0 bb by (simp add: read_cells_def live_append vs_def)
  have wr: "write_cells ?hp1 (Ptr (length hp) 0) vs = Inr (hp @ [Some vs])"
    using len n0 by (simp add: write_cells_def live_append)
  have "\<not> overlap (Ptr (length hp) 0) (data b) ?n"
    using d(1) bb by (simp add: overlap_def)
  then have c3: "memcpy ?hp1 (Ptr (length hp) 0) (data b) ?n = Inr (hp @ [Some vs])"
    using rd wr by (simp add: memcpy_def)
  have vb: "valid_image (hp @ [Some vs]) b"
    using assms by (rule valid_image_append)
  have vc: "valid_image (hp @ [Some vs]) ?c"
    using assms len n0 by (simp add: valid_image_def live_append)
  have blocks: "block_of (data ?c) \<noteq> block_of (data b)"
    using d(1) bb by (simp add: block_of_def)
  have elems: "\<exists>x. read_i hp b i = Inr x \<and> read_i (hp @ [Some vs]) ?c i = Inr x
      \<and> read_i (hp @ [Some vs]) b i = Inr x" if "0 \<le> i" "i < ?n" for i
  proof -
    have i: "nat i < nat ?n" "nat off + nat i < length cells" "nat (off + i) = nat off + nat i"
      using that d(3,4) by linarith+
    have "read_i hp b i = Inr (cells ! (nat off + nat i))"
      using d that i by (simp add: read_i_def at_i_const_def index_ptr_def load_def)
    moreover have "read_i (hp @ [Some vs]) ?c i = Inr (vs ! nat i)"
      using that len by (simp add: read_i_def at_i_const_def index_ptr_def load_def live_append)
    moreover have "vs ! nat i = cells ! (nat off + nat i)"
      using i by (simp add: vs_def)
    ultimately show ?thesis
      using read_i_append [OF assms, of "Some vs" i] by simp
  qed
  have "deep_copy hp b (hp @ [Some vs]) ?c"
    unfolding deep_copy_def
    using vb vc blocks elems independent_blocks [OF vc vb blocks] by simp
  with c1 c2 c3 that show thesis by blast
qed

lemma release_keeps:
  assumes "releasable hp a" "valid_image hp b"
    "\<not> (ownData a \<and> block_of (data a) = block_of (data b))"
  obtains hp1 where "release hp a = Inr hp1" "valid_image hp1 b"
    "\<And>i. read_i hp1 b i = read_i hp b i"
proof (cases "ownData a \<and> data a \<noteq> Null")
  case False
  then have "release hp a = Inr hp" by (auto simp: release_def)
  with assms(2) that show thesis by blast
next
  case True
  then obtain ba off where a: "data a = Ptr ba off" "ownData a"
    by (cases "data a") auto
  from assms(2) obtain bb off' cells where d: "data b = Ptr bb off'" "live hp bb = Some cells"
    by (auto simp: valid_image_def split: ptr.splits option.splits)
  have ne: "bb \<noteq> ba" using assms(3) a d(1) by (simp add: block_of_def)
  from assms(1) a have la: "live hp ba \<noteq> None"
    by (simp add: releasable_def)
  then have lt: "ba < length hp" by (auto simp: live_def split: if_splits)
  have lv: "live (hp[ba := None]) k = (if k = ba then None else live hp k)" for k
    using lt by (rule live_update)
  have run: "release hp a = Inr (hp[ba := None])"
    using release_releasable [OF assms(1)] a by simp
  have "valid_image (hp[ba := None]) b"
    using assms(2) d ne by (simp add: valid_image_def lv)
  moreover have "read_i (hp[ba := None]) b i = read_i hp b i" for i
    using d(1) ne by (simp add: read_i_def at_i_const_def index_ptr_def load_def lv)
  ultimately show thesis using run that by blast
qed

lemma deep_copy_before:
  assumes "deep_copy hp1 b hp' c" "\<And>i. read_i hp1 b i = read_i hp b i"
  shows "deep_copy hp b hp' c"
  using assms unfolding deep_copy_def by simp

text \<open>
  C1. Copy-constructing from a well-formed image \<open>b\<close> that owns its storage succeeds
  and yields a deep copy: the same \<open>w\<close>, \<open>h\<close>, \<open>stride\<close>, equal elements at all
  \<open>stride * h\<close> indices, another array, and a write through either image leaves the
  elements of the other unchanged. Copy-assigning such a \<open>b\<close> to a different object,
  whose own old storage can be released and is not the storage of \<open>b\<close>, succeeds,
  leaves \<open>b\<close> as it was and makes the target a deep copy in the same sense.
  Copy-constructing from a \<open>b\<close> that borrows its storage yields an image with the
  same geometry and the same \<open>data\<close> that does not own it, and no heap change; when
  \<open>b\<close> is well-formed, a write through either image is read back through the other.
\<close>

theorem copy_semantics:
  "(valid_image hp b \<and> ownData b \<longrightarrow>
      (\<exists>hp' c. MinimalImage_copy hp b = Inr (hp', c) \<and> deep_copy hp b hp' c))
   \<and> (\<not> ownData b \<longrightarrow>
      (\<exists>c. MinimalImage_copy hp b = Inr (hp, c)
         \<and> w c = w b \<and> h c = h b \<and> stride c = stride b \<and> data c = data b \<and> \<not> ownData c
         \<and> (valid_image hp b \<longrightarrow> shared hp c b)))
   \<and> (this \<noteq> other \<and> valid_image (heap st) (objs st other) \<and> ownData (objs st other)
        \<and> releasable (heap st) (objs st this)
        \<and> \<not> (ownData (objs st this)
              \<and> block_of (data (objs st this)) = block_of (data (objs st other))) \<longrightarrow>
      (\<exists>st'. copy_assign st this other = Inr st'
         \<and> objs st' other = objs st other
         \<and> deep_copy (heap st) (objs st other) (heap st') (objs st' this)))"
proof (intro conjI impI)
  assume a: "valid_image hp b \<and> ownData b"
  then have v: "valid_image hp b" and own: "ownData b" by simp_all
  obtain vs where c: "chk (stride b * h b) = Inr (stride b * h b)"
    "new_array hp (stride b * h b)
       = Inr (hp @ [Some (replicate (nat (stride b * h b)) None)], Ptr (length hp) 0)"
    "memcpy (hp @ [Some (replicate (nat (stride b * h b)) None)]) (Ptr (length hp) 0) (data b)
        (stride b * h b) = Inr (hp @ [Some vs])"
    "deep_copy hp b (hp @ [Some vs])
       \<lparr>w = w b, h = h b, stride = stride b, data = Ptr (length hp) 0, ownData = True\<rparr>"
    using copy_into_new_array [OF v] by blast
  have "MinimalImage_copy hp b = Inr (hp @ [Some vs],
      \<lparr>w = w b, h = h b, stride = stride b, data = Ptr (length hp) 0, ownData = True\<rparr>)"
    using own c(1,2,3) by (simp add: MinimalImage_copy_def)
  with c(4) show "\<exists>hp' c. MinimalImage_copy hp b = Inr (hp', c) \<and> deep_copy hp b hp' c"
    by blast
next
  assume borrow: "\<not> ownData b"
  let ?c = "\<lparr>w = w b, h = h b, stride = stride b, data = data b, ownData = False\<rparr>"
  have run: "MinimalImage_copy hp b = Inr (hp, ?c)"
    using borrow by (simp add: MinimalImage_copy_def)
  have "shared hp ?c b" if v: "valid_image hp b"
  proof -
    have "valid_image hp ?c"
      using v by (auto simp: valid_image_def split: ptr.splits option.splits)
    then show ?thesis by (rule shared_same_data) simp
  qed
  with run show "\<exists>c. MinimalImage_copy hp b = Inr (hp, c)
         \<and> w c = w b \<and> h c = h b \<and> stride c = stride b \<and> data c = data b \<and> \<not> ownData c
         \<and> (valid_image hp b \<longrightarrow> shared hp c b)"
    by simp
next
  let ?a = "objs st this" and ?b = "objs st other"
  assume pre: "this \<noteq> other \<and> valid_image (heap st) ?b \<and> ownData ?b
        \<and> releasable (heap st) ?a
        \<and> \<not> (ownData ?a \<and> block_of (data ?a) = block_of (data ?b))"
  then have ne: "this \<noteq> other" and v: "valid_image (heap st) ?b" and own: "ownData ?b"
    and rel: "releasable (heap st) ?a"
    and sep: "\<not> (ownData ?a \<and> block_of (data ?a) = block_of (data ?b))"
    by simp_all
  obtain hp1 where r: "release (heap st) ?a = Inr hp1" "valid_image hp1 ?b"
    "\<And>i. read_i hp1 ?b i = read_i (heap st) ?b i"
    using release_keeps [OF rel v sep] by blast
  let ?c = "\<lparr>w = w ?b, h = h ?b, stride = stride ?b, data = Ptr (length hp1) 0, ownData = True\<rparr>"
  obtain vs where c: "chk (stride ?b * h ?b) = Inr (stride ?b * h ?b)"
    "new_array hp1 (stride ?b * h ?b)
       = Inr (hp1 @ [Some (replicate (nat (stride ?b * h ?b)) None)], Ptr (length hp1) 0)"
    "memcpy (hp1 @ [Some (replicate (nat (stride ?b * h ?b)) None)]) (Ptr (length hp1) 0)
        (data ?b) (stride ?b * h ?b) = Inr (hp1 @ [Some vs])"
    "deep_copy hp1 ?b (hp1 @ [Some vs]) ?c"
    using copy_into_new_array [OF r(2)] by blast
  have upd: "(objs st this)\<lparr>w := w ?b, h := h ?b, stride := stride ?b,
      data := Ptr (length hp1) 0, ownData := True\<rparr> = ?c"
    by simp
  define st' where "st' = \<lparr>objs = (objs st)(this := (objs st this)\<lparr>w := w ?b, h := h ?b,
      stride := stride ?b, data := Ptr (length hp1) 0, ownData := True\<rparr>),
      heap = hp1 @ [Some vs]\<rparr>"
  have run: "copy_assign st this other = Inr st'"
    using ne own r(1) c(1,2,3) by (simp add: copy_assign_def Let_def st'_def)
  have "objs st' other = ?b" "objs st' this = ?c" "heap st' = hp1 @ [Some vs]"
    using ne upd by (simp_all add: st'_def)
  moreover have "deep_copy (heap st) ?b (hp1 @ [Some vs]) ?c"
    using c(4) r(3) by (rule deep_copy_before)
  ultimately show "\<exists>st'. copy_assign st this other = Inr st'
         \<and> objs st' other = objs st other
         \<and> deep_copy (heap st) (objs st other) (heap st') (objs st' this)"
    using run by auto
qed

theorem copy_semantics_witness:
  "valid_image [Some [Some (1::nat), Some 2]]
       \<lparr>w = 2, h = 1, stride = 2, data = Ptr 0 0, ownData = True\<rparr>
   \<and> MinimalImage_copy [Some [Some (1::nat), Some 2]]
         \<lparr>w = 2, h = 1, stride = 2, data = Ptr 0 0, ownData = True\<rparr>
       = Inr ([Some [Some 1, Some 2], Some [Some 1, Some 2]],
              \<lparr>w = 2, h = 1, stride = 2, data = Ptr 1 0, ownData = True\<rparr>)
   \<and> MinimalImage_copy [Some [Some (1::nat), Some 2]]
         \<lparr>w = 2, h = 1, stride = 2, data = Ptr 0 0, ownData = False\<rparr>
       = Inr ([Some [Some 1, Some 2]],
              \<lparr>w = 2, h = 1, stride = 2, data = Ptr 0 0, ownData = False\<rparr>)
   \<and> (0::nat) \<noteq> 1
   \<and> releasable [Some [Some (1::nat), Some 2], Some [Some 7]]
         \<lparr>w = 1, h = 1, stride = 1, data = Ptr 1 0, ownData = True\<rparr>
   \<and> (case copy_assign
           \<lparr>objs = (\<lambda>a. if a = 0 then \<lparr>w = 1, h = 1, stride = 1, data = Ptr 1 0, ownData = True\<rparr>
                          else \<lparr>w = 2, h = 1, stride = 2, data = Ptr 0 0, ownData = True\<rparr>),
            heap = [Some [Some (1::nat), Some 2], Some [Some 7]]\<rparr> 0 1 of
         Inl e \<Rightarrow> False
       | Inr st' \<Rightarrow>
           objs st' 0 = \<lparr>w = 2, h = 1, stride = 2, data = Ptr 2 0, ownData = True\<rparr>
           \<and> objs st' 1 = \<lparr>w = 2, h = 1, stride = 2, data = Ptr 0 0, ownData = True\<rparr>
           \<and> heap st' = [Some [Some 1, Some 2], None, Some [Some 1, Some 2]])"
  using copy_semantics [of "[Some [Some (1::nat), Some 2]]"
      "\<lparr>w = 2, h = 1, stride = 2, data = Ptr 0 0, ownData = True\<rparr>" 0 1
      "\<lparr>objs = (\<lambda>a. if a = 0 then \<lparr>w = 1, h = 1, stride = 1, data = Ptr 1 0, ownData = True\<rparr>
                          else \<lparr>w = 2, h = 1, stride = 2, data = Ptr 0 0, ownData = True\<rparr>),
            heap = [Some [Some (1::nat), Some 2], Some [Some 7]]\<rparr>"]
    copy_semantics [of "[Some [Some (1::nat), Some 2]]"
      "\<lparr>w = 2, h = 1, stride = 2, data = Ptr 0 0, ownData = False\<rparr>" 0 1
      "\<lparr>objs = (\<lambda>a. if a = 0 then \<lparr>w = 1, h = 1, stride = 1, data = Ptr 1 0, ownData = True\<rparr>
                          else \<lparr>w = 2, h = 1, stride = 2, data = Ptr 0 0, ownData = True\<rparr>),
            heap = [Some [Some (1::nat), Some 2], Some [Some 7]]\<rparr>"]
  by (simp add: valid_image_def live_def int_ok_def INT_MIN_def INT_MAX_def releasable_def
      MinimalImage_copy_def copy_assign_def release_def delete_array_def chk_def new_array_def
      memcpy_def overlap_def read_cells_def write_cells_def Let_def)

end
